theory Spec2Isabelle
  imports Main "HOL-Library.AList"
begin

section \<open>The task record store of ScriptBuilder.tsx\<close>

text \<open>
  The store of \<^verbatim>\<open>src/ScriptBuilder.tsx\<close> is a reducer over a record of tasks. A task id
  is a JavaScript string, a status one of four string literals, an \<^verbatim>\<open>Error\<close> is kept by
  its message. Optional fields (\<^verbatim>\<open>error?\<close>, \<^verbatim>\<open>startTime?\<close>, \<^verbatim>\<open>endTime?\<close>,
  \<^verbatim>\<open>parentId?\<close>) are \<open>option\<close>s, \<open>None\<close> standing for \<^verbatim>\<open>undefined\<close>. The field
  \<^verbatim>\<open>id\<close> is called \<open>idT\<close> here, \<open>id\<close> being the identity function of HOL. The step
  index of a task is the sequencer's \<^verbatim>\<open>currentIndex\<close>, which starts at 0 and is only
  ever incremented, hence a natural number; timestamps are the readings of
  \<^verbatim>\<open>Date.now()\<close>.
\<close>

type_synonym TaskId = string

datatype TaskStatus = Pending | Running | Completed | Failed

datatype Error = Error string

record Task =
  idT :: TaskId
  name :: string
  status :: TaskStatus
  error :: "Error option"
  startTime :: "nat option"
  endTime :: "nat option"
  parentId :: "TaskId option"
  childIds :: "TaskId list"
  index :: nat

text \<open>
  \<^verbatim>\<open>TaskMap\<close> is a plain object keyed by task id. Its own string keys are enumerated in
  insertion order, assigning to a present key keeps its place and assigning to an absent
  one appends it: an association list read by \<open>map_of\<close> and written by \<open>AList.update\<close>.
  An object holds each key once, which is \<open>distinct (map fst m)\<close>.
\<close>

type_synonym TaskMap = "(TaskId \<times> Task) list"

record TaskState =
  tasks :: TaskMap
  rootTaskIds :: "TaskId list"
  completedTaskIds :: "TaskId list"

datatype TaskAction =
    REGISTER_TASK Task
  | START_TASK TaskId
  | COMPLETE_TASK TaskId
  | FAIL_TASK TaskId Error
  | SET_PARENT TaskId TaskId
  | CLEANUP_TASKS nat

text \<open>
  The test \<^verbatim>\<open>task.parentId ? a : b\<close> and the test \<^verbatim>\<open>!taskIdRef.current\<close> are
  JavaScript truthiness of an optional string: \<^verbatim>\<open>undefined\<close>, \<^verbatim>\<open>null\<close> and the
  empty string are falsy.
\<close>

definition truthy :: "TaskId option \<Rightarrow> bool" where
  "truthy v = (case v of None \<Rightarrow> False | Some s \<Rightarrow> s \<noteq> [])"

text \<open>
  \<^verbatim>\<open>taskReducer\<close>, lines 48 to 162. The first argument is what \<^verbatim>\<open>Date.now()\<close> returns
  during the call. In \<^verbatim>\<open>SET_PARENT\<close> the object literal writes the key \<^verbatim>\<open>[id]\<close> and
  then the key \<^verbatim>\<open>[parentId]\<close>, both values built from the tasks read before the
  update, so with \<^verbatim>\<open>id === parentId\<close> the second write wins. In \<^verbatim>\<open>CLEANUP_TASKS\<close>
  the \<^verbatim>\<open>reduce\<close> over \<^verbatim>\<open>Object.entries\<close> is the left fold that assigns each kept entry
  to the accumulator.

  The reducer is stated on the typed program: a \<^verbatim>\<open>TaskId\<close> is an id that
  \<^verbatim>\<open>registerTask\<close> made, the step index, a dash and a suffix, and for such a string
  \<^verbatim>\<open>state.tasks[id]\<close> reads the own keys of the object, which is \<open>map_of\<close>. What the
  same read gives for an arbitrary string, which also reaches \<^verbatim>\<open>Object.prototype\<close>, is
  \<open>getProperty\<close> in the section on property reads below.
\<close>

fun taskReducer :: "nat \<Rightarrow> TaskState \<Rightarrow> TaskAction \<Rightarrow> TaskState" where
  "taskReducer now state (REGISTER_TASK task) =
     state\<lparr>tasks := AList.update (idT task) task (tasks state),
           rootTaskIds := (if truthy (parentId task) then rootTaskIds state
                           else rootTaskIds state @ [idT task])\<rparr>"
| "taskReducer now state (START_TASK i) =
     (case map_of (tasks state) i of
        None \<Rightarrow> state
      | Some task \<Rightarrow>
          state\<lparr>tasks := AList.update i (task\<lparr>status := Running, startTime := Some now\<rparr>)
                            (tasks state)\<rparr>)"
| "taskReducer now state (COMPLETE_TASK i) =
     (case map_of (tasks state) i of
        None \<Rightarrow> state
      | Some task \<Rightarrow>
          state\<lparr>tasks := AList.update i (task\<lparr>status := Completed, endTime := Some now\<rparr>)
                            (tasks state),
                completedTaskIds := completedTaskIds state @ [i]\<rparr>)"
| "taskReducer now state (FAIL_TASK i err) =
     (case map_of (tasks state) i of
        None \<Rightarrow> state
      | Some task \<Rightarrow>
          state\<lparr>tasks := AList.update i
                            (task\<lparr>status := Failed, error := Some err, endTime := Some now\<rparr>)
                            (tasks state)\<rparr>)"
| "taskReducer now state (SET_PARENT i p) =
     (case map_of (tasks state) i of
        None \<Rightarrow> state
      | Some task \<Rightarrow>
          (case map_of (tasks state) p of
             None \<Rightarrow> state
           | Some parent \<Rightarrow>
               state\<lparr>tasks := AList.update p (parent\<lparr>childIds := childIds parent @ [i]\<rparr>)
                                 (AList.update i (task\<lparr>parentId := Some p\<rparr>) (tasks state)),
                     rootTaskIds := filter (\<lambda>tid. tid \<noteq> i) (rootTaskIds state)\<rparr>))"
| "taskReducer now state (CLEANUP_TASKS currentIndex) =
     (let filteredTasks =
            foldl (\<lambda>acc (i, task). if index task \<le> currentIndex then AList.update i task acc else acc)
                  [] (tasks state);
          filteredRootTaskIds =
            filter (\<lambda>i. map_of filteredTasks i \<noteq> None) (rootTaskIds state)
      in state\<lparr>tasks := filteredTasks, rootTaskIds := filteredRootTaskIds\<rparr>)"

text \<open>The initial value given to \<^verbatim>\<open>useReducer\<close>, and a run of dispatched actions, each
  with the clock reading of its reduction.\<close>

definition initialState :: TaskState where
  "initialState = \<lparr>tasks = [], rootTaskIds = [], completedTaskIds = []\<rparr>"

definition dispatchAll :: "TaskState \<Rightarrow> (nat \<times> TaskAction) list \<Rightarrow> TaskState" where
  "dispatchAll s acts = foldl (\<lambda>st (now, a). taskReducer now st a) s acts"

text \<open>
  \<^verbatim>\<open>registerTask\<close>, lines 252 to 270: the action it dispatches. The id is the decimal
  \<^verbatim>\<open>currentIndex\<close>, a dash and the suffix drawn from \<^verbatim>\<open>Math.random()\<close>, which is the
  last argument here.
\<close>

fun stringOfNat :: "nat \<Rightarrow> string" where
  "stringOfNat n =
     (if n < 10 then [''0123456789'' ! n]
      else stringOfNat (n div 10) @ [''0123456789'' ! (n mod 10)])"

declare stringOfNat.simps [simp del]

definition registerTask :: "nat \<Rightarrow> string \<Rightarrow> TaskId option \<Rightarrow> string \<Rightarrow> TaskAction" where
  "registerTask currentIndex nm parent rand =
     REGISTER_TASK \<lparr>idT = stringOfNat currentIndex @ ''-'' @ rand, name = nm, status = Pending,
                    error = None, startTime = None, endTime = None, parentId = parent,
                    childIds = [], index = currentIndex\<rparr>"

section \<open>The step sequencer of TaskProvider\<close>

text \<open>
  \<^verbatim>\<open>TaskProvider\<close> keeps the store, \<^verbatim>\<open>currentIndex\<close> and the ref
  \<^verbatim>\<open>previousCompletionState\<close>, a sparse boolean array: a map from indices to booleans,
  an index never written reading \<^verbatim>\<open>undefined\<close>. \<^verbatim>\<open>childrenArray\<close> is the list of the
  valid elements among the children, so \<^verbatim>\<open>isValidElement(childrenArray[k])\<close> holds
  exactly for \<open>k < stepCount\<close>, its length.
\<close>

record Sequencer =
  state :: TaskState
  currentIndex :: nat
  previousCompletionState :: "nat \<rightharpoonup> bool"

text \<open>\<^verbatim>\<open>isCurrentChildComplete\<close>, lines 209 to 231; the second component is the ref after
  the call.\<close>

definition isCurrentChildComplete ::
    "nat \<Rightarrow> TaskState \<Rightarrow> (nat \<rightharpoonup> bool) \<Rightarrow> nat \<Rightarrow> bool \<times> (nat \<rightharpoonup> bool)" where
  "isCurrentChildComplete stepCount st prev childIndex =
     (if \<not> childIndex < stepCount then (True, prev)
      else
        let childTasks = filter (\<lambda>task. index task = childIndex) (map snd (tasks st));
            isComplete =
              (length childTasks > 0 \<and>
               list_all (\<lambda>task. idT task \<in> set (completedTaskIds st) \<or> status task = Completed)
                        childTasks)
        in (isComplete, prev(childIndex \<mapsto> isComplete)))"

text \<open>The progression effect, lines 239 to 250. \<^verbatim>\<open>previousComplete\<close> is read from the
  ref after the call of \<^verbatim>\<open>isCurrentChildComplete\<close> has written it.\<close>

definition progressionEffect :: "nat \<Rightarrow> Sequencer \<Rightarrow> Sequencer" where
  "progressionEffect stepCount seq =
     (let (currentComplete, prev') =
            isCurrentChildComplete stepCount (state seq) (previousCompletionState seq)
              (currentIndex seq);
          previousComplete = prev' (currentIndex seq)
      in seq\<lparr>previousCompletionState := prev',
             currentIndex :=
               (if currentComplete \<and> previousComplete = Some True \<and>
                   int (currentIndex seq) < int stepCount - 1
                then currentIndex seq + 1 else currentIndex seq)\<rparr>)"

text \<open>The cleanup effect, lines 234 to 236, runs when \<^verbatim>\<open>currentIndex\<close> has changed.\<close>

definition cleanupEffect :: "nat \<Rightarrow> Sequencer \<Rightarrow> Sequencer" where
  "cleanupEffect now seq =
     seq\<lparr>state := taskReducer now (state seq) (CLEANUP_TASKS (currentIndex seq))\<rparr>"

text \<open>
  What happens to a mounted provider: a leaf operation dispatches one of the five actions
  of the context, or the provider re-renders and its effects run, the progression effect
  and then, if the index moved, the cleanup effect for the new index.
\<close>

datatype Event = Dispatch TaskAction | Evaluate

fun stepSequencer :: "nat \<Rightarrow> Sequencer \<Rightarrow> nat \<times> Event \<Rightarrow> Sequencer" where
  "stepSequencer stepCount seq (now, Dispatch a) = seq\<lparr>state := taskReducer now (state seq) a\<rparr>"
| "stepSequencer stepCount seq (now, Evaluate) =
     (let seq' = progressionEffect stepCount seq
      in if currentIndex seq' \<noteq> currentIndex seq then cleanupEffect now seq' else seq')"

definition runSequencer :: "nat \<Rightarrow> Sequencer \<Rightarrow> (nat \<times> Event) list \<Rightarrow> Sequencer" where
  "runSequencer stepCount seq evs = foldl (stepSequencer stepCount) seq evs"

section \<open>The task handle of useTask\<close>

text \<open>
  A \<^verbatim>\<open>throw\<close> carries any value: an \<^verbatim>\<open>Error\<close> object, or something else of which
  \<^verbatim>\<open>String(error)\<close> is taken. A promise settles by resolving with a value or by
  rejecting with what was thrown.
\<close>

datatype Thrown = ThrownError Error | ThrownOther string

datatype 'a Settled = Resolved 'a | Rejected Thrown

definition normalizeError :: "Thrown \<Rightarrow> Error" where
  "normalizeError t = (case t of ThrownError e \<Rightarrow> e | ThrownOther s \<Rightarrow> Error s)"

text \<open>
  \<^verbatim>\<open>completeTask(taskIdRef.current)\<close> and \<^verbatim>\<open>failTask(taskIdRef.current, ...)\<close>,
  lines 385 and 387 to 390: the ref is read when the call is made. It holds an id, or
  \<^verbatim>\<open>null\<close> once the cleanup of the registration effect, line 372, has run. With
  \<^verbatim>\<open>null\<close> the reducer reads \<^verbatim>\<open>state.tasks[null]\<close>, that is the key \<^verbatim>\<open>"null"\<close>,
  which is no id of \<^verbatim>\<open>registerTask\<close> and no name of \<^verbatim>\<open>Object.prototype\<close>, finds
  nothing and returns the state.
\<close>

definition dispatchRef ::
    "nat \<Rightarrow> TaskState \<Rightarrow> TaskId option \<Rightarrow> (TaskId \<Rightarrow> TaskAction) \<Rightarrow> TaskState" where
  "dispatchRef now st r act =
     (case r of None \<Rightarrow> st | Some j \<Rightarrow> taskReducer now st (act j))"

text \<open>
  \<^verbatim>\<open>execute\<close>, lines 376 to 395. \<open>t0\<close> and \<open>t1\<close> are the clock readings at the dispatch
  before and the dispatch after the body; \<open>taskIdRef\<close> is \<^verbatim>\<open>taskIdRef.current\<close> when
  \<^verbatim>\<open>execute\<close> is called, read by the test and by \<^verbatim>\<open>startTask\<close> with nothing awaited
  in between. The body \<open>fn\<close> is awaited on the store it finds, and gives its settlement,
  the store as it is when it settles (other tasks may have been dispatched meanwhile)
  and what \<^verbatim>\<open>taskIdRef.current\<close> holds then: the effect of the hook, lines 366 to 374,
  may have set it to \<^verbatim>\<open>null\<close> or to a newly registered id while the body was
  awaited, and lines 385 and 388 read it again. The function has no \<^verbatim>\<open>return\<close>: on
  success its promise resolves with \<^verbatim>\<open>undefined\<close>, which is \<open>Resolved None\<close>.
\<close>

definition execute ::
    "nat \<Rightarrow> nat \<Rightarrow> TaskId option \<Rightarrow> (TaskState \<Rightarrow> 'a Settled \<times> TaskState \<times> TaskId option)
       \<Rightarrow> TaskState \<Rightarrow> 'a option Settled \<times> TaskState" where
  "execute t0 t1 taskIdRef fn st =
     (case taskIdRef of
        None \<Rightarrow> (Rejected (ThrownError (Error ''Task not initialized'')), st)
      | Some i \<Rightarrow>
          if i = [] then (Rejected (ThrownError (Error ''Task not initialized'')), st)
          else
            let st1 = taskReducer t0 st (START_TASK i);
                (r, st2, refAfter) = fn st1
            in (case r of
                  Resolved v \<Rightarrow>
                    (Resolved None, dispatchRef t1 st2 refAfter COMPLETE_TASK)
                | Rejected thrown \<Rightarrow>
                    (Rejected thrown,
                     dispatchRef t1 st2 refAfter (\<lambda>j. FAIL_TASK j (normalizeError thrown)))))"

section \<open>Property reads on the tasks object\<close>

text \<open>
  \<^verbatim>\<open>state.tasks\<close> is created by an object literal, so its prototype is
  \<^verbatim>\<open>Object.prototype\<close>, and \<^verbatim>\<open>state.tasks[id]\<close> with a string that is not an own key
  is looked up there. These are the names \<^verbatim>\<open>Object.prototype\<close> has.
\<close>

definition objectPrototypeNames :: "string list" where
  "objectPrototypeNames =
     [''constructor'', ''__defineGetter__'', ''__defineSetter__'', ''hasOwnProperty'',
      ''__lookupGetter__'', ''__lookupSetter__'', ''isPrototypeOf'', ''propertyIsEnumerable'',
      ''toString'', ''valueOf'', ''__proto__'', ''toLocaleString'']"

text \<open>
  The value of \<^verbatim>\<open>state.tasks[id]\<close>: the task under the own key; or, for a name of
  \<^verbatim>\<open>Object.prototype\<close>, a function (for \<^verbatim>\<open>__proto__\<close> the prototype itself), which is
  truthy, has no enumerable property of its own and no \<^verbatim>\<open>childIds\<close>; or
  \<^verbatim>\<open>undefined\<close>.
\<close>

datatype Property = Own Task | Inherited | Undefined

definition getProperty :: "TaskMap \<Rightarrow> TaskId \<Rightarrow> Property" where
  "getProperty m k =
     (case map_of m k of
        Some task \<Rightarrow> Own task
      | None \<Rightarrow> if k \<in> set objectPrototypeNames then Inherited else Undefined)"

text \<open>
  Spreading an inherited value copies nothing, so \<^verbatim>\<open>{...task, status: "running",
  startTime: Date.now()}\<close> is then an object with the written fields only: no id, no
  name, no index, no \<^verbatim>\<open>childIds\<close>. A store that holds such an object is no
  \<open>TaskState\<close>; it is an \<open>ObjState\<close>, whose entries are tasks or such strays.
\<close>

record Stray =
  strayStatus :: "TaskStatus option"
  strayError :: "Error option"
  strayStartTime :: "nat option"
  strayEndTime :: "nat option"
  strayParentId :: "TaskId option"

datatype Entry = TaskEntry Task | StrayEntry Stray

record ObjState =
  objTasks :: "(TaskId \<times> Entry) list"
  objRootTaskIds :: "TaskId list"
  objCompletedTaskIds :: "TaskId list"

definition asObj :: "TaskState \<Rightarrow> ObjState" where
  "asObj st =
     \<lparr>objTasks = map (\<lambda>(k, task). (k, TaskEntry task)) (tasks st),
      objRootTaskIds = rootTaskIds st, objCompletedTaskIds = completedTaskIds st\<rparr>"

definition noFields :: Stray where
  "noFields = \<lparr>strayStatus = None, strayError = None, strayStartTime = None,
                strayEndTime = None, strayParentId = None\<rparr>"

text \<open>The reducer returns a store or throws a \<^verbatim>\<open>TypeError\<close>.\<close>

datatype Outcome = Returned ObjState | TypeError

text \<open>
  The four mutators of the context that take an id, lines 273 to 287, on a store of
  tasks and with any string as id: each dispatches its action, and the branch of the
  reducer, lines 61 to 132, reads \<^verbatim>\<open>state.tasks[id]\<close> and tests \<^verbatim>\<open>!task\<close>. Where the
  value read is an own task the branch is the one of \<open>taskReducer\<close>. In
  \<^verbatim>\<open>SET_PARENT\<close> an inherited \<^verbatim>\<open>parent\<close> has \<^verbatim>\<open>parent.childIds\<close> undefined, and
  spreading that in \<^verbatim>\<open>[...parent.childIds, id]\<close> throws.
\<close>

definition startTask :: "nat \<Rightarrow> TaskState \<Rightarrow> TaskId \<Rightarrow> Outcome" where
  "startTask now st i =
     (case getProperty (tasks st) i of
        Undefined \<Rightarrow> Returned (asObj st)
      | Own task \<Rightarrow> Returned (asObj (taskReducer now st (START_TASK i)))
      | Inherited \<Rightarrow>
          Returned ((asObj st)
            \<lparr>objTasks := AList.update i
               (StrayEntry (noFields\<lparr>strayStatus := Some Running, strayStartTime := Some now\<rparr>))
               (objTasks (asObj st))\<rparr>))"

definition completeTask :: "nat \<Rightarrow> TaskState \<Rightarrow> TaskId \<Rightarrow> Outcome" where
  "completeTask now st i =
     (case getProperty (tasks st) i of
        Undefined \<Rightarrow> Returned (asObj st)
      | Own task \<Rightarrow> Returned (asObj (taskReducer now st (COMPLETE_TASK i)))
      | Inherited \<Rightarrow>
          Returned ((asObj st)
            \<lparr>objTasks := AList.update i
               (StrayEntry (noFields\<lparr>strayStatus := Some Completed, strayEndTime := Some now\<rparr>))
               (objTasks (asObj st)),
             objCompletedTaskIds := objCompletedTaskIds (asObj st) @ [i]\<rparr>))"

definition failTask :: "nat \<Rightarrow> TaskState \<Rightarrow> TaskId \<Rightarrow> Error \<Rightarrow> Outcome" where
  "failTask now st i err =
     (case getProperty (tasks st) i of
        Undefined \<Rightarrow> Returned (asObj st)
      | Own task \<Rightarrow> Returned (asObj (taskReducer now st (FAIL_TASK i err)))
      | Inherited \<Rightarrow>
          Returned ((asObj st)
            \<lparr>objTasks := AList.update i
               (StrayEntry (noFields\<lparr>strayStatus := Some Failed, strayError := Some err,
                                      strayEndTime := Some now\<rparr>))
               (objTasks (asObj st))\<rparr>))"

definition setParent :: "nat \<Rightarrow> TaskState \<Rightarrow> TaskId \<Rightarrow> TaskId \<Rightarrow> Outcome" where
  "setParent now st i p =
     (case getProperty (tasks st) i of
        Undefined \<Rightarrow> Returned (asObj st)
      | Own task \<Rightarrow>
          (case getProperty (tasks st) p of
             Undefined \<Rightarrow> Returned (asObj st)
           | Own parent \<Rightarrow> Returned (asObj (taskReducer now st (SET_PARENT i p)))
           | Inherited \<Rightarrow> TypeError)
      | Inherited \<Rightarrow>
          (case getProperty (tasks st) p of
             Undefined \<Rightarrow> Returned (asObj st)
           | Own parent \<Rightarrow>
               Returned ((asObj st)
                 \<lparr>objTasks := AList.update p
                    (TaskEntry (parent\<lparr>childIds := childIds parent @ [i]\<rparr>))
                    (AList.update i (StrayEntry (noFields\<lparr>strayParentId := Some p\<rparr>))
                       (objTasks (asObj st))),
                  objRootTaskIds := filter (\<lambda>tid. tid \<noteq> i) (objRootTaskIds (asObj st))\<rparr>)
           | Inherited \<Rightarrow> TypeError))"

section \<open>Runs and invariants\<close>










text \<open>
  An action spares the task \<open>i\<close> of step \<open>c\<close> when it does not start, complete or
  register that task again and does not prune the step.
\<close>

fun spares :: "nat \<Rightarrow> TaskId \<Rightarrow> TaskAction \<Rightarrow> bool" where
  "spares c i (REGISTER_TASK t) = (idT t \<noteq> i)"
| "spares c i (START_TASK j) = (j \<noteq> i)"
| "spares c i (COMPLETE_TASK j) = (j \<noteq> i)"
| "spares c i (FAIL_TASK j err) = True"
| "spares c i (SET_PARENT j p) = True"
| "spares c i (CLEANUP_TASKS k) = (c \<le> k)"

fun sparesEvent :: "nat \<Rightarrow> TaskId \<Rightarrow> nat \<times> Event \<Rightarrow> bool" where
  "sparesEvent c i (now, Dispatch a) = spares c i a"
| "sparesEvent c i (now, Evaluate) = True"

text \<open>The store holds, under the key \<open>i\<close>, a failed task of step \<open>c\<close> that was never
  recorded as completed.\<close>

definition holdsFailed :: "nat \<Rightarrow> TaskId \<Rightarrow> TaskState \<Rightarrow> bool" where
  "holdsFailed c i st =
     (distinct (map fst (tasks st)) \<and>
      (case map_of (tasks st) i of
         None \<Rightarrow> False
       | Some t \<Rightarrow> idT t = i \<and> index t = c \<and> status t = Failed) \<and>
      i \<notin> set (completedTaskIds st))"

section \<open>Stores used as examples\<close>

text \<open>A store in which the only task of step 0 was registered, started and has failed.\<close>

definition failedStore :: TaskState where
  "failedStore = dispatchAll initialState
     [(10, registerTask 0 ''read'' None ''k3x9q2a''), (11, START_TASK ''0-k3x9q2a''),
      (12, FAIL_TASK ''0-k3x9q2a'' (Error ''ENOENT''))]"

text \<open>A store in which the only task of step 0 was registered, started and has completed.\<close>

definition completedStore :: TaskState where
  "completedStore = dispatchAll initialState
     [(10, registerTask 0 ''read'' None ''k3x9q2a''), (11, START_TASK ''0-k3x9q2a''),
      (12, COMPLETE_TASK ''0-k3x9q2a'')]"

text \<open>A provider that has just mounted.\<close>

definition mountedSequencer :: Sequencer where
  "mountedSequencer =
     \<lparr>state = initialState, currentIndex = 0, previousCompletionState = Map.empty\<rparr>"

text \<open>Step 0 with three pending tasks, the third registered with the id of the first as
  its \<^verbatim>\<open>parentId\<close>.\<close>

definition familyStore :: TaskState where
  "familyStore = dispatchAll initialState
     [(10, registerTask 0 ''build'' None ''p1p1p1p''),
      (11, registerTask 0 ''test'' None ''q2q2q2q''),
      (12, registerTask 0 ''lint'' (Some ''0-p1p1p1p'') ''c3c3c3c'')]"

text \<open>A completed task of step 0 and two pending tasks registered at index 1.\<close>

definition twoStepStore :: TaskState where
  "twoStepStore = dispatchAll initialState
     [(10, registerTask 0 ''build'' None ''p1p1p1p''), (11, COMPLETE_TASK ''0-p1p1p1p''),
      (12, registerTask 1 ''test'' None ''q2q2q2q''),
      (13, registerTask 1 ''lint'' (Some ''1-q2q2q2q'') ''c3c3c3c'')]"

section \<open>Evaluation of the examples\<close>

lemma stringOfNat_0: "stringOfNat 0 = ''0''"
  by (simp add: stringOfNat.simps)

lemma stringOfNat_1: "stringOfNat 1 = ''1''"
  by (simp add: stringOfNat.simps)

lemma stringOfNat_Suc_0: "stringOfNat (Suc 0) = ''1''"
  by (simp add: stringOfNat.simps)

lemma failedStore_eq:
  "failedStore =
     \<lparr>tasks = [(''0-k3x9q2a'',
         \<lparr>idT = ''0-k3x9q2a'', name = ''read'', status = Failed, error = Some (Error ''ENOENT''),
          startTime = Some 11, endTime = Some 12, parentId = None, childIds = [], index = 0\<rparr>)],
      rootTaskIds = [''0-k3x9q2a''], completedTaskIds = []\<rparr>"
  by (simp add: failedStore_def dispatchAll_def initialState_def registerTask_def
        stringOfNat_0 truthy_def)

lemma completedStore_eq:
  "completedStore =
     \<lparr>tasks = [(''0-k3x9q2a'',
         \<lparr>idT = ''0-k3x9q2a'', name = ''read'', status = Completed, error = None,
          startTime = Some 11, endTime = Some 12, parentId = None, childIds = [], index = 0\<rparr>)],
      rootTaskIds = [''0-k3x9q2a''], completedTaskIds = [''0-k3x9q2a'']\<rparr>"
  by (simp add: completedStore_def dispatchAll_def initialState_def registerTask_def
        stringOfNat_0 truthy_def)

lemma familyStore_eq:
  "familyStore =
     \<lparr>tasks =
        [(''0-p1p1p1p'',
          \<lparr>idT = ''0-p1p1p1p'', name = ''build'', status = Pending, error = None,
           startTime = None, endTime = None, parentId = None, childIds = [], index = 0\<rparr>),
         (''0-q2q2q2q'',
          \<lparr>idT = ''0-q2q2q2q'', name = ''test'', status = Pending, error = None,
           startTime = None, endTime = None, parentId = None, childIds = [], index = 0\<rparr>),
         (''0-c3c3c3c'',
          \<lparr>idT = ''0-c3c3c3c'', name = ''lint'', status = Pending, error = None,
           startTime = None, endTime = None, parentId = Some ''0-p1p1p1p'', childIds = [],
           index = 0\<rparr>)],
      rootTaskIds = [''0-p1p1p1p'', ''0-q2q2q2q''], completedTaskIds = []\<rparr>"
  by (simp add: familyStore_def dispatchAll_def initialState_def registerTask_def
        stringOfNat_0 truthy_def)

lemma twoStepStore_eq:
  "twoStepStore =
     \<lparr>tasks =
        [(''0-p1p1p1p'',
          \<lparr>idT = ''0-p1p1p1p'', name = ''build'', status = Completed, error = None,
           startTime = None, endTime = Some 11, parentId = None, childIds = [], index = 0\<rparr>),
         (''1-q2q2q2q'',
          \<lparr>idT = ''1-q2q2q2q'', name = ''test'', status = Pending, error = None,
           startTime = None, endTime = None, parentId = None, childIds = [], index = 1\<rparr>),
         (''1-c3c3c3c'',
          \<lparr>idT = ''1-c3c3c3c'', name = ''lint'', status = Pending, error = None,
           startTime = None, endTime = None, parentId = Some ''1-q2q2q2q'', childIds = [],
           index = 1\<rparr>)],
      rootTaskIds = [''0-p1p1p1p'', ''1-q2q2q2q''], completedTaskIds = [''0-p1p1p1p'']\<rparr>"
  by (simp add: twoStepStore_def dispatchAll_def initialState_def registerTask_def
        stringOfNat_0 stringOfNat_Suc_0 truthy_def)

lemmas example_eval =
  dispatchAll_def initialState_def registerTask_def stringOfNat_0 stringOfNat_1 stringOfNat_Suc_0
  truthy_def
  runSequencer_def progressionEffect_def isCurrentChildComplete_def cleanupEffect_def
  mountedSequencer_def

section \<open>Unknown ids\<close>

text \<open>For a string that is no name of \<^verbatim>\<open>Object.prototype\<close> the property read is the read
  of the own keys, and the four mutators do what \<open>taskReducer\<close> does.\<close>

lemma getProperty_ordinary:
  "i \<notin> set objectPrototypeNames \<Longrightarrow>
     getProperty m i = (case map_of m i of None \<Rightarrow> Undefined | Some task \<Rightarrow> Own task)"
  by (simp add: getProperty_def split: option.splits)

lemma mutators_on_ordinary_ids:
  assumes "i \<notin> set objectPrototypeNames" and "p \<notin> set objectPrototypeNames"
  shows "startTask now st i = Returned (asObj (taskReducer now st (START_TASK i)))"
    and "completeTask now st i = Returned (asObj (taskReducer now st (COMPLETE_TASK i)))"
    and "failTask now st i err = Returned (asObj (taskReducer now st (FAIL_TASK i err)))"
    and "setParent now st i p = Returned (asObj (taskReducer now st (SET_PARENT i p)))"
  using assms
  by (simp_all add: startTask_def completeTask_def failTask_def setParent_def
        getProperty_ordinary split: option.splits)

lemma ordinary_unknown_id_noop:
  assumes "i \<notin> set objectPrototypeNames" and "map_of (tasks st) i = None"
  shows "startTask now st i = Returned (asObj st)"
    and "completeTask now st i = Returned (asObj st)"
    and "failTask now st i err = Returned (asObj st)"
    and "setParent now st i p = Returned (asObj st)"
    and "\<And>j. setParent now st j i = Returned (asObj st)"
  using assms
  by (simp_all add: startTask_def completeTask_def failTask_def setParent_def
        getProperty_def split: option.splits Property.splits)

text \<open>
  C9. The claim: for every id that is not in the tasks map, \<^verbatim>\<open>start\<close>, \<^verbatim>\<open>complete\<close>,
  \<^verbatim>\<open>fail\<close> and \<^verbatim>\<open>setParent\<close> return the store unchanged and never throw. The guard
  \<^verbatim>\<open>if (!task) return state\<close> reads \<^verbatim>\<open>state.tasks[id]\<close> on a plain object, and for
  the id \<^verbatim>\<open>constructor\<close>, which is no key of the store with one failed task, the read
  gives a function of \<^verbatim>\<open>Object.prototype\<close>: \<^verbatim>\<open>start\<close>, \<^verbatim>\<open>complete\<close> and \<^verbatim>\<open>fail\<close>
  write an entry under that key, \<^verbatim>\<open>complete\<close> also appends the id to
  \<^verbatim>\<open>completedTaskIds\<close>, \<^verbatim>\<open>setParent\<close> of that id under the stored task writes an
  entry, changes the \<^verbatim>\<open>childIds\<close> of the task and the roots, and \<^verbatim>\<open>setParent\<close> with
  it as the parent throws a \<^verbatim>\<open>TypeError\<close>.
\<close>

theorem prototype_id_not_noop:
  "map_of (tasks failedStore) ''constructor'' = None \<and>
   startTask 20 failedStore ''constructor''
     = Returned ((asObj failedStore)
         \<lparr>objTasks := objTasks (asObj failedStore) @
            [(''constructor'',
              StrayEntry (noFields\<lparr>strayStatus := Some Running, strayStartTime := Some 20\<rparr>))]\<rparr>) \<and>
   startTask 20 failedStore ''constructor'' \<noteq> Returned (asObj failedStore) \<and>
   completeTask 20 failedStore ''constructor''
     = Returned ((asObj failedStore)
         \<lparr>objTasks := objTasks (asObj failedStore) @
            [(''constructor'',
              StrayEntry (noFields\<lparr>strayStatus := Some Completed, strayEndTime := Some 20\<rparr>))],
          objCompletedTaskIds := [''constructor'']\<rparr>) \<and>
   completeTask 20 failedStore ''constructor'' \<noteq> Returned (asObj failedStore) \<and>
   failTask 20 failedStore ''constructor'' (Error ''boom'') \<noteq> Returned (asObj failedStore) \<and>
   setParent 20 failedStore ''constructor'' ''0-k3x9q2a'' \<noteq> Returned (asObj failedStore) \<and>
   objRootTaskIds (asObj failedStore) = [''0-k3x9q2a''] \<and>
   setParent 20 failedStore ''0-k3x9q2a'' ''constructor'' = TypeError"
  by (simp add: failedStore_eq startTask_def completeTask_def failTask_def setParent_def
        getProperty_def objectPrototypeNames_def asObj_def noFields_def)

section \<open>Statuses are not terminal in the store\<close>

text \<open>
  C10. The store does not enforce that \<^verbatim>\<open>completed\<close> and \<^verbatim>\<open>failed\<close> are terminal. For
  a task that exists, whatever its status, \<^verbatim>\<open>start(id)\<close> sets the status to running
  and overwrites \<^verbatim>\<open>startTime\<close>, and \<^verbatim>\<open>complete(id)\<close> sets the status to completed
  and appends the id to \<^verbatim>\<open>completedTaskIds\<close>; in particular both do so on a failed
  task.
\<close>

theorem store_not_terminal:
  "map_of (tasks s) i = Some t \<Longrightarrow>
     map_of (tasks (taskReducer now s (START_TASK i))) i
       = Some (t\<lparr>status := Running, startTime := Some now\<rparr>) \<and>
     completedTaskIds (taskReducer now s (START_TASK i)) = completedTaskIds s \<and>
     map_of (tasks (taskReducer now s (COMPLETE_TASK i))) i
       = Some (t\<lparr>status := Completed, endTime := Some now\<rparr>) \<and>
     completedTaskIds (taskReducer now s (COMPLETE_TASK i)) = completedTaskIds s @ [i]"
  by (simp add: update_conv')

theorem store_not_terminal_witness:
  "map_option status (map_of (tasks failedStore) ''0-k3x9q2a'') = Some Failed \<and>
   map_option status
     (map_of (tasks (taskReducer 20 failedStore (START_TASK ''0-k3x9q2a''))) ''0-k3x9q2a'')
      = Some Running \<and>
   map_option startTime
     (map_of (tasks (taskReducer 20 failedStore (START_TASK ''0-k3x9q2a''))) ''0-k3x9q2a'')
      = Some (Some 20) \<and>
   map_option status
     (map_of (tasks (taskReducer 20 failedStore (COMPLETE_TASK ''0-k3x9q2a''))) ''0-k3x9q2a'')
      = Some Completed \<and>
   completedTaskIds (taskReducer 20 failedStore (COMPLETE_TASK ''0-k3x9q2a'')) = [''0-k3x9q2a'']"
  using store_not_terminal [of failedStore "''0-k3x9q2a''" _ 20]
  by (simp add: failedStore_eq)

section \<open>The debounce of the sequencer\<close>

text \<open>
  C1. The claim: the sequencer advances \<^verbatim>\<open>currentIndex\<close> only when the completion
  predicate held on two consecutive evaluations of the same index, so that a single true
  reading never causes an advance. The progression effect reads
  \<^verbatim>\<open>previousCompletionState.current[currentIndex]\<close> after \<^verbatim>\<open>isCurrentChildComplete\<close>
  has stored the present verdict there, so the value it calls \<^verbatim>\<open>previousComplete\<close> is
  the present verdict. In the run below, with two steps, the first evaluation finds the
  only task of step 0 pending, records \<open>False\<close> and stays at 0; the task then completes,
  and the very next evaluation, the first to read true, moves to step 1.
\<close>

theorem single_true_reading_advances:
  "previousCompletionState
     (runSequencer 2 mountedSequencer
        [(10, Dispatch (registerTask 0 ''read'' None ''k3x9q2a'')), (11, Evaluate)]) 0
     = Some False \<and>
   currentIndex
     (runSequencer 2 mountedSequencer
        [(10, Dispatch (registerTask 0 ''read'' None ''k3x9q2a'')), (11, Evaluate)]) = 0 \<and>
   currentIndex
     (runSequencer 2 mountedSequencer
        [(10, Dispatch (registerTask 0 ''read'' None ''k3x9q2a'')), (11, Evaluate),
         (12, Dispatch (COMPLETE_TASK ''0-k3x9q2a'')), (13, Evaluate)]) = 1"
  by (simp add: example_eval)

section \<open>The completion predicate\<close>

text \<open>
  C3 as stated: the predicate holds exactly when the step has a task and every task of
  the step has status completed. The predicate also accepts a task whose id is in
  \<^verbatim>\<open>completedTaskIds\<close>: after \<^verbatim>\<open>complete\<close> and then \<^verbatim>\<open>fail\<close> on the only task of step
  0, the task is failed and the predicate holds.
\<close>

theorem completed_then_failed_counterexample:
  "fst (isCurrentChildComplete 1
         (dispatchAll initialState
            [(10, registerTask 0 ''read'' None ''k3x9q2a''), (11, COMPLETE_TASK ''0-k3x9q2a''),
             (12, FAIL_TASK ''0-k3x9q2a'' (Error ''ENOENT''))])
         Map.empty 0) \<and>
   map (\<lambda>(k, t). (index t, status t))
       (tasks (dispatchAll initialState
            [(10, registerTask 0 ''read'' None ''k3x9q2a''), (11, COMPLETE_TASK ''0-k3x9q2a''),
             (12, FAIL_TASK ''0-k3x9q2a'' (Error ''ENOENT''))])) = [(0, Failed)]"
  by (simp add: example_eval)

text \<open>
  C3 as amended: for an index that names a step, the predicate holds exactly when some
  task has that step index and every task with that step index has status completed or
  has its id in \<^verbatim>\<open>completedTaskIds\<close>. A step without tasks therefore never satisfies
  it.
\<close>

theorem step_complete_iff:
  "childIndex < stepCount \<Longrightarrow>
     fst (isCurrentChildComplete stepCount st prev childIndex) \<longleftrightarrow>
       (\<exists>(k, t) \<in> set (tasks st). index t = childIndex) \<and>
       (\<forall>(k, t) \<in> set (tasks st). index t = childIndex \<longrightarrow>
           status t = Completed \<or> idT t \<in> set (completedTaskIds st))"
proof -
  assume lt: "childIndex < stepCount"
  let ?cs = "filter (\<lambda>task. index task = childIndex) (map snd (tasks st))"
  have a: "(0 < length ?cs) \<longleftrightarrow> (\<exists>(k, t) \<in> set (tasks st). index t = childIndex)"
    by (force simp: length_greater_0_conv filter_empty_conv)
  have b: "list_all (\<lambda>task. idT task \<in> set (completedTaskIds st) \<or> status task = Completed) ?cs
       \<longleftrightarrow> (\<forall>(k, t) \<in> set (tasks st). index t = childIndex \<longrightarrow>
           status t = Completed \<or> idT t \<in> set (completedTaskIds st))"
    by (force simp: list_all_iff)
  show ?thesis
    using lt a b by (simp add: isCurrentChildComplete_def Let_def del: length_greater_0_conv)
qed

theorem step_complete_iff_witness:
  "(0::nat) < 2 \<and>
   fst (isCurrentChildComplete 2 completedStore Map.empty 0) \<and>
   (\<exists>(k, t) \<in> set (tasks completedStore). index t = 0) \<and>
   \<not> fst (isCurrentChildComplete 2 completedStore Map.empty 1) \<and>
   \<not> (\<exists>(k, t) \<in> set (tasks completedStore). index t = 1)"
  using step_complete_iff [of 0 2 completedStore Map.empty]
        step_complete_iff [of 1 2 completedStore Map.empty]
  by (simp add: completedStore_eq)

section \<open>Setting a parent again\<close>

text \<open>
  C5 as stated: \<^verbatim>\<open>setParent(id, p)\<close> applied twice gives the store that applying it once
  gives, and naming a different parent later is a no-op. In the store of three tasks
  neither holds: the second call changes the store, whether it names the same parent or
  another one.
\<close>

theorem set_parent_twice_counterexample:
  "taskReducer 21 (taskReducer 20 familyStore (SET_PARENT ''0-c3c3c3c'' ''0-p1p1p1p''))
      (SET_PARENT ''0-c3c3c3c'' ''0-p1p1p1p'')
     \<noteq> taskReducer 20 familyStore (SET_PARENT ''0-c3c3c3c'' ''0-p1p1p1p'') \<and>
   taskReducer 21 (taskReducer 20 familyStore (SET_PARENT ''0-c3c3c3c'' ''0-p1p1p1p''))
      (SET_PARENT ''0-c3c3c3c'' ''0-q2q2q2q'')
     \<noteq> taskReducer 20 familyStore (SET_PARENT ''0-c3c3c3c'' ''0-p1p1p1p'')"
  by (simp add: familyStore_eq)

text \<open>
  C5 as amended: when \<open>i\<close> and \<open>p\<close> are different existing tasks, a second
  \<^verbatim>\<open>setParent(i, p)\<close> gives the store of the first one except that \<open>i\<close> is listed once
  more in the \<^verbatim>\<open>childIds\<close> of \<open>p\<close> (\<^verbatim>\<open>rootTaskIds\<close>, \<^verbatim>\<open>completedTaskIds\<close> and every
  other task are the same); and a later \<^verbatim>\<open>setParent(i, p')\<close> naming another existing
  task \<open>p'\<close> sets the \<^verbatim>\<open>parentId\<close> of \<open>i\<close> to \<open>p'\<close> and appends \<open>i\<close> to the
  \<^verbatim>\<open>childIds\<close> of \<open>p'\<close>, while \<open>i\<close> stays in the \<^verbatim>\<open>childIds\<close> of \<open>p\<close>.
\<close>

theorem set_parent_again:
  assumes "map_of (tasks s) i = Some t" and "map_of (tasks s) p = Some q" and "i \<noteq> p"
  shows "taskReducer now' (taskReducer now s (SET_PARENT i p)) (SET_PARENT i p)
           = (taskReducer now s (SET_PARENT i p))
               \<lparr>tasks := AList.update p (q\<lparr>childIds := childIds q @ [i, i]\<rparr>)
                           (tasks (taskReducer now s (SET_PARENT i p)))\<rparr>
         \<and> map_of (tasks (taskReducer now s (SET_PARENT i p))) p
              = Some (q\<lparr>childIds := childIds q @ [i]\<rparr>)
         \<and> (map_of (tasks s) p' = Some q' \<and> p' \<noteq> i \<and> p' \<noteq> p \<longrightarrow>
              map_of (tasks (taskReducer now' (taskReducer now s (SET_PARENT i p)) (SET_PARENT i p')))
                = (map_of (tasks s))
                    (i \<mapsto> t\<lparr>parentId := Some p'\<rparr>,
                     p \<mapsto> q\<lparr>childIds := childIds q @ [i]\<rparr>,
                     p' \<mapsto> q'\<lparr>childIds := childIds q' @ [i]\<rparr>))"
proof -
  let ?al = "AList.update p (q\<lparr>childIds := childIds q @ [i]\<rparr>)
               (AList.update i (t\<lparr>parentId := Some p\<rparr>) (tasks s))"
  have s1: "taskReducer now s (SET_PARENT i p)
      = s\<lparr>tasks := ?al, rootTaskIds := filter (\<lambda>tid. tid \<noteq> i) (rootTaskIds s)\<rparr>"
    using assms by simp
  have li: "map_of ?al i = Some (t\<lparr>parentId := Some p\<rparr>)"
    using assms by (simp add: update_conv')
  have lp: "map_of ?al p = Some (q\<lparr>childIds := childIds q @ [i]\<rparr>)"
    by (simp add: update_conv')
  have triv: "AList.update i (t\<lparr>parentId := Some p\<rparr>) ?al = ?al"
    using li by (rule update_triv)
  have one: "taskReducer now' (taskReducer now s (SET_PARENT i p)) (SET_PARENT i p)
           = (taskReducer now s (SET_PARENT i p))
               \<lparr>tasks := AList.update p (q\<lparr>childIds := childIds q @ [i, i]\<rparr>)
                           (tasks (taskReducer now s (SET_PARENT i p)))\<rparr>"
    unfolding s1 using li lp triv by simp
  have two: "map_of (tasks (taskReducer now s (SET_PARENT i p))) p
              = Some (q\<lparr>childIds := childIds q @ [i]\<rparr>)"
    unfolding s1 using lp by simp
  have three: "map_of (tasks s) p' = Some q' \<and> p' \<noteq> i \<and> p' \<noteq> p \<longrightarrow>
              map_of (tasks (taskReducer now' (taskReducer now s (SET_PARENT i p)) (SET_PARENT i p')))
                = (map_of (tasks s))
                    (i \<mapsto> t\<lparr>parentId := Some p'\<rparr>,
                     p \<mapsto> q\<lparr>childIds := childIds q @ [i]\<rparr>,
                     p' \<mapsto> q'\<lparr>childIds := childIds q' @ [i]\<rparr>)"
  proof
    assume h: "map_of (tasks s) p' = Some q' \<and> p' \<noteq> i \<and> p' \<noteq> p"
    then have lp': "map_of ?al p' = Some q'" by (simp add: update_conv')
    show "map_of (tasks (taskReducer now' (taskReducer now s (SET_PARENT i p)) (SET_PARENT i p')))
                = (map_of (tasks s))
                    (i \<mapsto> t\<lparr>parentId := Some p'\<rparr>,
                     p \<mapsto> q\<lparr>childIds := childIds q @ [i]\<rparr>,
                     p' \<mapsto> q'\<lparr>childIds := childIds q' @ [i]\<rparr>)"
      unfolding s1 using li lp' h assms(3)
      by (auto simp add: update_conv' fun_eq_iff)
  qed
  from one two three show ?thesis by blast
qed

theorem set_parent_again_witness:
  "map_of (tasks familyStore) ''0-c3c3c3c'' \<noteq> None \<and>
   map_of (tasks familyStore) ''0-p1p1p1p'' \<noteq> None \<and>
   map_of (tasks familyStore) ''0-q2q2q2q'' \<noteq> None \<and>
   map_option childIds
     (map_of (tasks (taskReducer 20 familyStore (SET_PARENT ''0-c3c3c3c'' ''0-p1p1p1p'')))
        ''0-p1p1p1p'') = Some [''0-c3c3c3c''] \<and>
   map_option childIds
     (map_of (tasks (taskReducer 21
                      (taskReducer 20 familyStore (SET_PARENT ''0-c3c3c3c'' ''0-p1p1p1p''))
                      (SET_PARENT ''0-c3c3c3c'' ''0-p1p1p1p'')))
        ''0-p1p1p1p'') = Some [''0-c3c3c3c'', ''0-c3c3c3c''] \<and>
   map_option parentId
     (map_of (tasks (taskReducer 21
                      (taskReducer 20 familyStore (SET_PARENT ''0-c3c3c3c'' ''0-p1p1p1p''))
                      (SET_PARENT ''0-c3c3c3c'' ''0-q2q2q2q'')))
        ''0-c3c3c3c'') = Some (Some ''0-q2q2q2q'')"
proof -
  have hi: "map_of (tasks familyStore) ''0-c3c3c3c''
      = Some \<lparr>idT = ''0-c3c3c3c'', name = ''lint'', status = Pending, error = None,
           startTime = None, endTime = None, parentId = Some ''0-p1p1p1p'', childIds = [],
           index = 0\<rparr>"
    by (simp add: familyStore_eq)
  have hp: "map_of (tasks familyStore) ''0-p1p1p1p''
      = Some \<lparr>idT = ''0-p1p1p1p'', name = ''build'', status = Pending, error = None,
           startTime = None, endTime = None, parentId = None, childIds = [], index = 0\<rparr>"
    by (simp add: familyStore_eq)
  have hq: "map_of (tasks familyStore) ''0-q2q2q2q''
      = Some \<lparr>idT = ''0-q2q2q2q'', name = ''test'', status = Pending, error = None,
           startTime = None, endTime = None, parentId = None, childIds = [], index = 0\<rparr>"
    by (simp add: familyStore_eq)
  have ne: "''0-c3c3c3c'' \<noteq> ''0-p1p1p1p''" by simp
  note th = set_parent_again [OF hi hp ne, where now = 20 and now' = 21
              and p' = "''0-q2q2q2q''"]
  from th hi hp hq show ?thesis
    by (simp add: update_conv')
qed

section \<open>Pruning\<close>

lemma update_absent:
  "k \<notin> fst ` set al \<Longrightarrow> AList.update k v al = al @ [(k, v)]"
  by (induction al) auto

text \<open>On an object, whose keys are distinct, the fold of \<^verbatim>\<open>CLEANUP_TASKS\<close> keeps the
  entries that pass the test, in their order.\<close>

lemma prune_fold:
  "distinct (map fst m) \<Longrightarrow> fst ` set acc \<inter> fst ` set m = {} \<Longrightarrow>
     foldl (\<lambda>acc (i, task). if P task then AList.update i task acc else acc) acc m
       = acc @ filter (\<lambda>(i, task). P task) m"
proof (induction m arbitrary: acc)
  case Nil
  then show ?case by simp
next
  case (Cons e m)
  obtain k t where e: "e = (k, t)" by (cases e)
  from Cons.prems e have d: "distinct (map fst m)" and knm: "k \<notin> fst ` set m"
    and kacc: "k \<notin> fst ` set acc" and disj: "fst ` set acc \<inter> fst ` set m = {}"
    by auto
  show ?case
  proof (cases "P t")
    case True
    have disj': "fst ` set (acc @ [(k, t)]) \<inter> fst ` set m = {}"
      using disj knm by auto
    show ?thesis
      using True e Cons.IH [OF d disj'] by (simp add: update_absent [OF kacc])
  next
    case False
    then show ?thesis using e Cons.IH [OF d disj] by simp
  qed
qed

lemma cleanup_tasks:
  "distinct (map fst (tasks s)) \<Longrightarrow>
     tasks (taskReducer now s (CLEANUP_TASKS k)) = filter (\<lambda>(i, task). index task \<le> k) (tasks s)"
  using prune_fold [of "tasks s" "[]" "\<lambda>task. index task \<le> k"] by (simp add: Let_def)

lemma map_of_filter_distinct:
  "distinct (map fst m) \<Longrightarrow>
     map_of (filter (\<lambda>(i, t). P t) m) j
       = (case map_of m j of None \<Rightarrow> None | Some t \<Rightarrow> if P t then Some t else None)"
  by (induction m) (auto split: option.splits simp: map_of_eq_None_iff image_iff)

text \<open>
  C6. The tasks map being an object, each key once: after \<^verbatim>\<open>pruneAbove(k)\<close>, which
  is the action \<^verbatim>\<open>CLEANUP_TASKS\<close>, no task left in
  the store has a step index above \<open>k\<close>; every task with step index at most \<open>k\<close> is
  still there under its id, the same record in every field; nothing else is there; and
  \<^verbatim>\<open>rootTaskIds\<close> is the earlier list filtered to the ids that are still keys of the
  tasks map. The list of completed ids is not touched.
\<close>

theorem prune_above:
  assumes "distinct (map fst (tasks s))"
  shows "(\<forall>(j, t) \<in> set (tasks (taskReducer now s (CLEANUP_TASKS k))). index t \<le> k) \<and>
         (\<forall>j t. map_of (tasks s) j = Some t \<and> index t \<le> k \<longrightarrow>
                  map_of (tasks (taskReducer now s (CLEANUP_TASKS k))) j = Some t) \<and>
         (\<forall>j t. map_of (tasks (taskReducer now s (CLEANUP_TASKS k))) j = Some t \<longrightarrow>
                  map_of (tasks s) j = Some t) \<and>
         rootTaskIds (taskReducer now s (CLEANUP_TASKS k))
           = filter (\<lambda>j. j \<in> fst ` set (tasks (taskReducer now s (CLEANUP_TASKS k))))
               (rootTaskIds s) \<and>
         completedTaskIds (taskReducer now s (CLEANUP_TASKS k)) = completedTaskIds s"
proof -
  note ct = cleanup_tasks [OF assms, of now k]
  have a: "\<forall>(j, t) \<in> set (tasks (taskReducer now s (CLEANUP_TASKS k))). index t \<le> k"
    unfolding ct by auto
  have b: "\<forall>j t. map_of (tasks s) j = Some t \<and> index t \<le> k \<longrightarrow>
                  map_of (tasks (taskReducer now s (CLEANUP_TASKS k))) j = Some t"
    unfolding ct by (simp add: map_of_filter_distinct [OF assms])
  have c: "\<forall>j t. map_of (tasks (taskReducer now s (CLEANUP_TASKS k))) j = Some t \<longrightarrow>
                  map_of (tasks s) j = Some t"
    unfolding ct
    by (auto simp add: map_of_filter_distinct [OF assms] split: option.splits if_splits)
  have d: "rootTaskIds (taskReducer now s (CLEANUP_TASKS k))
           = filter (\<lambda>j. j \<in> fst ` set (tasks (taskReducer now s (CLEANUP_TASKS k))))
               (rootTaskIds s)"
    by (simp add: Let_def map_of_eq_None_iff)
  have e: "completedTaskIds (taskReducer now s (CLEANUP_TASKS k)) = completedTaskIds s"
    by (simp add: Let_def)
  from a b c d e show ?thesis by blast
qed

theorem prune_above_witness:
  "distinct (map fst (tasks twoStepStore)) \<and>
   map fst (tasks twoStepStore) = [''0-p1p1p1p'', ''1-q2q2q2q'', ''1-c3c3c3c''] \<and>
   map_of (tasks (taskReducer 20 twoStepStore (CLEANUP_TASKS 0))) ''0-p1p1p1p''
     = map_of (tasks twoStepStore) ''0-p1p1p1p'' \<and>
   map_of (tasks (taskReducer 20 twoStepStore (CLEANUP_TASKS 0))) ''1-q2q2q2q'' = None \<and>
   map_of (tasks (taskReducer 20 twoStepStore (CLEANUP_TASKS 0))) ''1-c3c3c3c'' = None \<and>
   rootTaskIds twoStepStore = [''0-p1p1p1p'', ''1-q2q2q2q''] \<and>
   rootTaskIds (taskReducer 20 twoStepStore (CLEANUP_TASKS 0)) = [''0-p1p1p1p'']"
proof -
  define t0 where "t0 = \<lparr>idT = ''0-p1p1p1p'', name = ''build'', status = Completed, error = None,
           startTime = None, endTime = Some 11, parentId = None, childIds = [], index = 0\<rparr>"
  have d: "distinct (map fst (tasks twoStepStore))"
    by (simp add: twoStepStore_eq)
  have r: "map fst (tasks twoStepStore) = [''0-p1p1p1p'', ''1-q2q2q2q'', ''1-c3c3c3c''] \<and>
   map_of (tasks (taskReducer 20 twoStepStore (CLEANUP_TASKS 0))) ''1-q2q2q2q'' = None \<and>
   map_of (tasks (taskReducer 20 twoStepStore (CLEANUP_TASKS 0))) ''1-c3c3c3c'' = None \<and>
   rootTaskIds twoStepStore = [''0-p1p1p1p'', ''1-q2q2q2q''] \<and>
   rootTaskIds (taskReducer 20 twoStepStore (CLEANUP_TASKS 0)) = [''0-p1p1p1p'']"
    by (simp add: twoStepStore_eq)
  have k: "map_of (tasks twoStepStore) ''0-p1p1p1p'' = Some t0 \<and> index t0 \<le> 0"
    by (simp add: twoStepStore_eq t0_def)
  note kept = conjunct1 [OF conjunct2 [OF prune_above [OF d, of 20 0]]]
  from kept k
  have "map_of (tasks (taskReducer 20 twoStepStore (CLEANUP_TASKS 0))) ''0-p1p1p1p'' = Some t0"
    by blast
  with k have "map_of (tasks (taskReducer 20 twoStepStore (CLEANUP_TASKS 0))) ''0-p1p1p1p''
     = map_of (tasks twoStepStore) ''0-p1p1p1p''"
    by simp
  with d r show ?thesis by blast
qed

section \<open>The list of completed ids\<close>







section \<open>The task handle\<close>

text \<open>
  C8 as stated: \<^verbatim>\<open>execute\<close> calls \<^verbatim>\<open>complete(id)\<close> for the id it started and resolves
  with the result of the body. The function awaits the body and returns nothing, so for
  a body that resolves with 42 the promise of \<^verbatim>\<open>execute\<close> resolves with
  \<^verbatim>\<open>undefined\<close>. And the id is read again after the body: when the hook has
  registered a new task meanwhile, \<^verbatim>\<open>complete\<close> goes to the new id and the task that
  was started stays running.
\<close>

theorem execute_result_counterexample:
  "fst (execute 20 21 (Some ''0-q2q2q2q'')
          (\<lambda>st. (Resolved (42::int), st, Some ''0-q2q2q2q'')) familyStore)
     = Resolved None \<and>
   fst (execute 20 21 (Some ''0-q2q2q2q'')
          (\<lambda>st. (Resolved (42::int), st, Some ''0-q2q2q2q'')) familyStore)
     \<noteq> Resolved (Some 42) \<and>
   map (\<lambda>(k, t). (k, status t))
     (tasks (snd (execute 20 21 (Some ''0-q2q2q2q'')
                    (\<lambda>st. (Resolved (42::int), st, Some ''0-c3c3c3c'')) familyStore)))
     = [(''0-p1p1p1p'', Pending), (''0-q2q2q2q'', Running), (''0-c3c3c3c'', Completed)]"
  by (simp add: execute_def dispatchRef_def Let_def familyStore_eq)

text \<open>
  C8 as amended: without a registered id \<^verbatim>\<open>execute\<close> rejects with the error
  \<^verbatim>\<open>Task not initialized\<close> and leaves the store as it is. With an id it dispatches
  \<^verbatim>\<open>start(id)\<close> and the body runs on the store so obtained. When the body has settled,
  the id of the handle is read again. If the body resolved, \<^verbatim>\<open>complete\<close> is dispatched
  for the id read then and the promise resolves with no value, the result of the body
  being dropped; if the body threw, \<^verbatim>\<open>fail\<close> is dispatched for the id read then, with
  the normalized error, and the promise rejects with the very value that was thrown. The
  id read then is the id that was started unless the hook has registered again or was
  unmounted while the body was awaited; after an unmount it is \<^verbatim>\<open>null\<close> and nothing
  is dispatched to a task.
\<close>

theorem execute_protocol:
  "(\<not> truthy taskIdRef \<longrightarrow>
      execute t0 t1 taskIdRef fn st
        = (Rejected (ThrownError (Error ''Task not initialized'')), st)) \<and>
   (truthy (Some i) \<and> fn (taskReducer t0 st (START_TASK i)) = (Resolved v, st2, Some j) \<longrightarrow>
      execute t0 t1 (Some i) fn st = (Resolved None, taskReducer t1 st2 (COMPLETE_TASK j))) \<and>
   (truthy (Some i) \<and> fn (taskReducer t0 st (START_TASK i)) = (Rejected thrown, st2, Some j) \<longrightarrow>
      execute t0 t1 (Some i) fn st
        = (Rejected thrown, taskReducer t1 st2 (FAIL_TASK j (normalizeError thrown)))) \<and>
   (truthy (Some i) \<and> fn (taskReducer t0 st (START_TASK i)) = (Resolved v, st2, None) \<longrightarrow>
      execute t0 t1 (Some i) fn st = (Resolved None, st2)) \<and>
   (truthy (Some i) \<and> fn (taskReducer t0 st (START_TASK i)) = (Rejected thrown, st2, None) \<longrightarrow>
      execute t0 t1 (Some i) fn st = (Rejected thrown, st2))"
  by (simp add: execute_def dispatchRef_def truthy_def Let_def split: option.splits)

theorem execute_protocol_witness:
  "\<not> truthy None \<and>
   execute 20 21 None (\<lambda>st. (Resolved (42::int), st, None)) familyStore
     = (Rejected (ThrownError (Error ''Task not initialized'')), familyStore) \<and>
   truthy (Some ''0-q2q2q2q'') \<and>
   execute 20 21 (Some ''0-q2q2q2q'') (\<lambda>st. (Resolved (42::int), st, Some ''0-q2q2q2q''))
       familyStore
     = (Resolved None,
        taskReducer 21 (taskReducer 20 familyStore (START_TASK ''0-q2q2q2q''))
          (COMPLETE_TASK ''0-q2q2q2q'')) \<and>
   map_of (tasks (snd (execute 20 21 (Some ''0-q2q2q2q'')
                         (\<lambda>st. (Resolved (42::int), st, Some ''0-q2q2q2q'')) familyStore)))
       ''0-q2q2q2q''
     = Some \<lparr>idT = ''0-q2q2q2q'', name = ''test'', status = Completed, error = None,
             startTime = Some 20, endTime = Some 21, parentId = None, childIds = [],
             index = 0\<rparr> \<and>
   fst (execute 20 21 (Some ''0-q2q2q2q'')
          (\<lambda>st. (Rejected (ThrownOther ''exit code 1'') :: int Settled, st, Some ''0-q2q2q2q''))
          familyStore)
     = Rejected (ThrownOther ''exit code 1'') \<and>
   map_of (tasks (snd (execute 20 21 (Some ''0-q2q2q2q'')
          (\<lambda>st. (Rejected (ThrownOther ''exit code 1'') :: int Settled, st, Some ''0-q2q2q2q''))
          familyStore)))
       ''0-q2q2q2q''
     = Some \<lparr>idT = ''0-q2q2q2q'', name = ''test'', status = Failed,
             error = Some (Error ''exit code 1''),
             startTime = Some 20, endTime = Some 21, parentId = None, childIds = [],
             index = 0\<rparr> \<and>
   execute 20 21 (Some ''0-q2q2q2q'') (\<lambda>st. (Resolved (42::int), st, None)) familyStore
     = (Resolved None, taskReducer 20 familyStore (START_TASK ''0-q2q2q2q''))"
proof -
  have n: "\<not> truthy None" and y: "truthy (Some ''0-q2q2q2q'')"
    by (simp_all add: truthy_def)
  let ?st1 = "taskReducer 20 familyStore (START_TASK ''0-q2q2q2q'')"
  note p1 = execute_protocol [of None 20 21 "\<lambda>st. (Resolved (42::int), st, None)" familyStore]
  note p2 = execute_protocol [of _ 20 21 "\<lambda>st. (Resolved (42::int), st, Some ''0-q2q2q2q'')"
               familyStore "''0-q2q2q2q''" 42 ?st1 "''0-q2q2q2q''"]
  note p3 = execute_protocol [of _ 20 21
               "\<lambda>st. (Rejected (ThrownOther ''exit code 1'') :: int Settled, st, Some ''0-q2q2q2q'')"
               familyStore "''0-q2q2q2q''" _ ?st1 "''0-q2q2q2q''" "ThrownOther ''exit code 1''"]
  note p4 = execute_protocol [of _ 20 21 "\<lambda>st. (Resolved (42::int), st, None)"
               familyStore "''0-q2q2q2q''" 42 ?st1]
  have e1: "execute 20 21 None (\<lambda>st. (Resolved (42::int), st, None)) familyStore
     = (Rejected (ThrownError (Error ''Task not initialized'')), familyStore)"
    using p1 n by blast
  have e2: "execute 20 21 (Some ''0-q2q2q2q'')
       (\<lambda>st. (Resolved (42::int), st, Some ''0-q2q2q2q'')) familyStore
     = (Resolved None, taskReducer 21 ?st1 (COMPLETE_TASK ''0-q2q2q2q''))"
    using p2 y by simp
  have e3: "execute 20 21 (Some ''0-q2q2q2q'')
          (\<lambda>st. (Rejected (ThrownOther ''exit code 1'') :: int Settled, st, Some ''0-q2q2q2q''))
          familyStore
     = (Rejected (ThrownOther ''exit code 1''),
        taskReducer 21 ?st1
          (FAIL_TASK ''0-q2q2q2q'' (normalizeError (ThrownOther ''exit code 1''))))"
    using p3 y by simp
  have e4: "execute 20 21 (Some ''0-q2q2q2q'') (\<lambda>st. (Resolved (42::int), st, None)) familyStore
     = (Resolved None, ?st1)"
    using p4 y by simp
  show ?thesis
    unfolding e1 e2 e3 e4 using n y
    by (simp add: familyStore_eq normalizeError_def)
qed

section \<open>Roots and children\<close>
























section \<open>Stalling on a failed task\<close>

lemma holdsFailedE:
  assumes "holdsFailed c i st"
  obtains t where "map_of (tasks st) i = Some t" and "idT t = i" and "index t = c"
    and "status t = Failed" and "i \<notin> set (completedTaskIds st)"
    and "distinct (map fst (tasks st))"
  using assms by (auto simp: holdsFailed_def split: option.splits simp del: map_of_eq_Some_iff)

lemma holdsFailedI:
  assumes "map_of (tasks st) i = Some t" and "idT t = i" and "index t = c"
    and "status t = Failed" and "i \<notin> set (completedTaskIds st)"
    and "distinct (map fst (tasks st))"
  shows "holdsFailed c i st"
  using assms by (simp add: holdsFailed_def del: map_of_eq_Some_iff)

text \<open>Writing one key keeps the failed task, when the key is another one or the value
  written is again a failed task of the step.\<close>

lemma holdsFailed_update:
  assumes h: "holdsFailed c i st"
    and ts: "tasks st' = AList.update j u (tasks st)"
    and same: "j = i \<longrightarrow> idT u = i \<and> index u = c \<and> status u = Failed"
    and cs: "completedTaskIds st' = completedTaskIds st \<or>
             (j \<noteq> i \<and> completedTaskIds st' = completedTaskIds st @ [j])"
  shows "holdsFailed c i st'"
proof -
  from h obtain t where l: "map_of (tasks st) i = Some t" and t: "idT t = i" "index t = c"
    "status t = Failed" and nc: "i \<notin> set (completedTaskIds st)"
    and d: "distinct (map fst (tasks st))"
    by (rule holdsFailedE)
  have d': "distinct (map fst (tasks st'))"
    unfolding ts using d by (rule distinct_update)
  from cs nc have nc': "i \<notin> set (completedTaskIds st')" by auto
  show ?thesis
  proof (cases "j = i")
    case True
    have "map_of (tasks st') i = Some u" unfolding ts using True by (simp add: update_conv')
    from this _ _ _ nc' d' show ?thesis
      by (rule holdsFailedI) (use same True in simp_all)
  next
    case False
    have "map_of (tasks st') i = Some t"
      unfolding ts using False l by (simp add: update_conv')
    from this t nc' d' show ?thesis by (rule holdsFailedI)
  qed
qed

lemma holdsFailed_step:
  assumes h: "holdsFailed c i st" and sp: "spares c i a"
  shows "holdsFailed c i (taskReducer now st a)"
proof (cases a)
  case (REGISTER_TASK t)
  with sp have "idT t \<noteq> i" by simp
  then show ?thesis
    unfolding REGISTER_TASK
    by (intro holdsFailed_update [OF h, of _ "idT t" t]) simp_all
next
  case (START_TASK j)
  with sp have ne: "j \<noteq> i" by simp
  show ?thesis
  proof (cases "map_of (tasks st) j")
    case None
    then show ?thesis using h START_TASK by simp
  next
    case (Some u)
    show ?thesis
      unfolding START_TASK
      by (rule holdsFailed_update [OF h, of _ j "u\<lparr>status := Running, startTime := Some now\<rparr>"])
         (simp_all add: Some ne)
  qed
next
  case (COMPLETE_TASK j)
  with sp have ne: "j \<noteq> i" by simp
  show ?thesis
  proof (cases "map_of (tasks st) j")
    case None
    then show ?thesis using h COMPLETE_TASK by simp
  next
    case (Some u)
    show ?thesis
      unfolding COMPLETE_TASK
      by (rule holdsFailed_update [OF h, of _ j "u\<lparr>status := Completed, endTime := Some now\<rparr>"])
         (simp_all add: Some ne)
  qed
next
  case (FAIL_TASK j err)
  show ?thesis
  proof (cases "map_of (tasks st) j")
    case None
    then show ?thesis using h FAIL_TASK by simp
  next
    case (Some u)
    from h obtain t where l: "map_of (tasks st) i = Some t" and t: "idT t = i" "index t = c"
      by (rule holdsFailedE)
    show ?thesis
      unfolding FAIL_TASK
      by (rule holdsFailed_update
            [OF h, of _ j "u\<lparr>status := Failed, error := Some err, endTime := Some now\<rparr>"])
         (use Some l t in auto)
  qed
next
  case (SET_PARENT j p)
  show ?thesis
  proof (cases "map_of (tasks st) j")
    case None
    then show ?thesis using h SET_PARENT by simp
  next
    case (Some u)
    note sj = Some
    show ?thesis
    proof (cases "map_of (tasks st) p")
      case None
      then show ?thesis using h SET_PARENT sj by simp
    next
      case (Some q)
      from h obtain t where l: "map_of (tasks st) i = Some t" and t: "idT t = i" "index t = c"
        "status t = Failed"
        by (rule holdsFailedE)
      let ?st1 = "st\<lparr>tasks := AList.update j (u\<lparr>parentId := Some p\<rparr>) (tasks st)\<rparr>"
      have h1: "holdsFailed c i ?st1"
        by (rule holdsFailed_update [OF h, of _ j "u\<lparr>parentId := Some p\<rparr>"])
           (use sj l t in auto)
      show ?thesis
        unfolding SET_PARENT
        by (rule holdsFailed_update [OF h1, of _ p "q\<lparr>childIds := childIds q @ [j]\<rparr>"])
           (use sj Some l t in auto)
    qed
  qed
next
  case (CLEANUP_TASKS k)
  from h obtain t where l: "map_of (tasks st) i = Some t" and t: "idT t = i" "index t = c"
    "status t = Failed" and nc: "i \<notin> set (completedTaskIds st)"
    and d: "distinct (map fst (tasks st))"
    by (rule holdsFailedE)
  have ts: "tasks (taskReducer now st a) = filter (\<lambda>(i, task). index task \<le> k) (tasks st)"
    unfolding CLEANUP_TASKS by (rule cleanup_tasks [OF d])
  have cs: "completedTaskIds (taskReducer now st a) = completedTaskIds st"
    unfolding CLEANUP_TASKS by (simp add: Let_def)
  from sp CLEANUP_TASKS have ck: "c \<le> k" by simp
  have l': "map_of (tasks (taskReducer now st a)) i = Some t"
    unfolding ts using l t ck by (simp add: map_of_filter_distinct [OF d])
  have d': "distinct (map fst (tasks (taskReducer now st a)))"
    unfolding ts using d by (rule distinct_map_filter)
  from l' t _ d' show ?thesis
    by (rule holdsFailedI) (use nc cs in simp)
qed

lemma holdsFailed_not_complete:
  assumes h: "holdsFailed c i st" and lt: "c < stepCount"
  shows "\<not> fst (isCurrentChildComplete stepCount st prev c)"
proof -
  from h obtain t where l: "map_of (tasks st) i = Some t"
    and t: "idT t = i" "index t = c" "status t = Failed"
    and nc: "i \<notin> set (completedTaskIds st)"
    by (auto simp: holdsFailed_def split: option.splits)
  from l have "(i, t) \<in> set (tasks st)" by (rule map_of_SomeD)
  then have "t \<in> set (filter (\<lambda>task. index task = c) (map snd (tasks st)))"
    using t by force
  then have "\<not> list_all (\<lambda>task. idT task \<in> set (completedTaskIds st) \<or> status task = Completed)
               (filter (\<lambda>task. index task = c) (map snd (tasks st)))"
    using t nc unfolding list_all_iff by (intro notI) (drule bspec, assumption, simp)
  then show ?thesis
    using lt by (simp add: isCurrentChildComplete_def Let_def)
qed

lemma holdsFailed_progression:
  assumes h: "holdsFailed (currentIndex seq) i (state seq)"
  shows "currentIndex (progressionEffect stepCount seq) = currentIndex seq \<and>
         state (progressionEffect stepCount seq) = state seq"
proof (cases "currentIndex seq < stepCount")
  case True
  from holdsFailed_not_complete [OF h True, of "previousCompletionState seq"]
  show ?thesis
    by (simp add: progressionEffect_def split_beta Let_def)
next
  case False
  then show ?thesis
    by (simp add: progressionEffect_def isCurrentChildComplete_def)
qed

lemma holdsFailed_event:
  assumes h: "holdsFailed (currentIndex seq) i (state seq)"
    and sp: "sparesEvent (currentIndex seq) i e"
  shows "currentIndex (stepSequencer stepCount seq e) = currentIndex seq \<and>
         holdsFailed (currentIndex seq) i (state (stepSequencer stepCount seq e))"
proof -
  obtain now ev where e: "e = (now, ev)" by (cases e)
  show ?thesis
  proof (cases ev)
    case (Dispatch a)
    with sp e have "spares (currentIndex seq) i a" by simp
    from holdsFailed_step [OF h this, of now] show ?thesis using e Dispatch by simp
  next
    case Evaluate
    from holdsFailed_progression [OF h, of stepCount] h show ?thesis
      using e Evaluate by (simp add: Let_def)
  qed
qed

text \<open>
  C4 as stated: once a task of the current step has failed, \<^verbatim>\<open>currentIndex\<close> never
  advances, whatever store mutations follow. The store lets a failed task be started and
  completed again (a second \<^verbatim>\<open>execute\<close> on the same handle does that), and then the
  sequencer advances: here the only task of step 0 has failed, is started and completed
  again, and the next evaluation moves to step 1.
\<close>

theorem failed_then_completed_counterexample:
  "map (\<lambda>(k, t). (index t, status t)) (tasks failedStore) = [(0, Failed)] \<and>
   currentIndex
     (runSequencer 2
        \<lparr>state = failedStore, currentIndex = 0, previousCompletionState = Map.empty\<rparr>
        [(20, Evaluate), (21, Dispatch (START_TASK ''0-k3x9q2a'')),
         (22, Dispatch (COMPLETE_TASK ''0-k3x9q2a'')), (23, Evaluate)]) = 1"
  by (simp add: failedStore_eq runSequencer_def progressionEffect_def
        isCurrentChildComplete_def cleanupEffect_def)

text \<open>
  C4 as amended: if the store holds a failed task of the current step whose id is not in
  \<^verbatim>\<open>completedTaskIds\<close>, then \<^verbatim>\<open>currentIndex\<close> stays where it is, and the task stays
  failed, through any number of evaluations and of store actions that spare the task:
  any \<^verbatim>\<open>fail\<close> and \<^verbatim>\<open>setParent\<close>, \<^verbatim>\<open>register\<close>, \<^verbatim>\<open>start\<close> and \<^verbatim>\<open>complete\<close> of
  other ids, and pruning above the current index or a later one. The sequencer has no
  skip and no retry of its own.
\<close>

theorem stall_on_failure:
  assumes "holdsFailed (currentIndex seq) i (state seq)"
    and "list_all (sparesEvent (currentIndex seq) i) evs"
  shows "currentIndex (runSequencer stepCount seq evs) = currentIndex seq \<and>
         holdsFailed (currentIndex seq) i (state (runSequencer stepCount seq evs))"
  using assms
proof (induction evs arbitrary: seq)
  case Nil
  then show ?case by (simp add: runSequencer_def)
next
  case (Cons e evs)
  from Cons.prems have sp: "sparesEvent (currentIndex seq) i e"
    and rest: "list_all (sparesEvent (currentIndex seq) i) evs" by simp_all
  note ev = holdsFailed_event [OF Cons.prems(1) sp, of stepCount]
  from ev have c: "currentIndex (stepSequencer stepCount seq e) = currentIndex seq" by simp
  from ev c have h': "holdsFailed (currentIndex (stepSequencer stepCount seq e)) i
                        (state (stepSequencer stepCount seq e))" by simp
  from rest c have rest': "list_all (sparesEvent (currentIndex (stepSequencer stepCount seq e)) i) evs"
    by simp
  from Cons.IH [OF h' rest'] c show ?case
    by (simp add: runSequencer_def)
qed

theorem stall_on_failure_witness:
  "holdsFailed 0 ''0-k3x9q2a'' failedStore \<and>
   list_all (sparesEvent 0 ''0-k3x9q2a'')
     [(20, Evaluate), (21, Dispatch (registerTask 0 ''write'' None ''w7w7w7w'')),
      (22, Dispatch (COMPLETE_TASK ''0-w7w7w7w'')), (23, Evaluate),
      (24, Dispatch (FAIL_TASK ''0-k3x9q2a'' (Error ''EACCES''))), (25, Evaluate),
      (26, Evaluate)] \<and>
   currentIndex
     (runSequencer 2
        \<lparr>state = failedStore, currentIndex = 0, previousCompletionState = Map.empty\<rparr>
        [(20, Evaluate), (21, Dispatch (registerTask 0 ''write'' None ''w7w7w7w'')),
         (22, Dispatch (COMPLETE_TASK ''0-w7w7w7w'')), (23, Evaluate),
         (24, Dispatch (FAIL_TASK ''0-k3x9q2a'' (Error ''EACCES''))), (25, Evaluate),
         (26, Evaluate)]) = 0"
proof -
  let ?seq = "\<lparr>state = failedStore, currentIndex = 0, previousCompletionState = Map.empty\<rparr>"
  let ?evs = "[(20, Evaluate), (21, Dispatch (registerTask 0 ''write'' None ''w7w7w7w'')),
      (22, Dispatch (COMPLETE_TASK ''0-w7w7w7w'')), (23, Evaluate),
      (24, Dispatch (FAIL_TASK ''0-k3x9q2a'' (Error ''EACCES''))), (25, Evaluate),
      (26, Evaluate)]"
  have h: "holdsFailed 0 ''0-k3x9q2a'' failedStore"
    by (simp add: holdsFailed_def failedStore_eq)
  have s: "list_all (sparesEvent 0 ''0-k3x9q2a'') ?evs"
    by (simp add: registerTask_def stringOfNat_0)
  have h': "holdsFailed (currentIndex ?seq) ''0-k3x9q2a'' (state ?seq)"
    using h by simp
  have s': "list_all (sparesEvent (currentIndex ?seq) ''0-k3x9q2a'') ?evs"
    using s by simp
  from stall_on_failure [OF h' s', of 2]
  have "currentIndex (runSequencer 2 ?seq ?evs) = 0" by simp
  with h s show ?thesis by blast
qed

end
